theory Spec2Isabelle
  imports Main
begin

section \<open>The Python runtime, as far as the encoder and the stream client use it\<close>

text \<open>
  A Python \<open>str\<close> is a sequence of code points. The model takes a character to be its
  code point and covers the code points U+0000 to U+00FF, which is what \<^typ>\<open>char\<close>
  holds: \<open>CHR 0xB2\<close> is the single character SUPERSCRIPT TWO, not a UTF-8 byte.

  Exceptions are values: a function that can raise returns \<open>error + 'a\<close>. The
  interpreter's resource limits (recursion depth, the length limit of the conversion
  between \<open>int\<close> and \<open>str\<close>) are outside the model.
\<close>

datatype error = ValueError | RequestException | Timeout | OtherException

text \<open>\<open>str.startswith\<close>.\<close>

definition startswith :: "string \<Rightarrow> string \<Rightarrow> bool" where
  "startswith s p = (take (length p) s = p)"

text \<open>
  \<open>str.isspace\<close> on one character: the code points below U+0100 that Unicode classes as
  whitespace (tab to carriage return, the four separators U+001C to U+001F, space,
  NEXT LINE and NO-BREAK SPACE). \<open>str.strip()\<close> removes these from both ends.
\<close>

definition isspace_char :: "char \<Rightarrow> bool" where
  "isspace_char c = (of_char c \<in> {9, 10, 11, 12, 13, 28, 29, 30, 31, 32, 133, 160 :: nat})"

definition strip :: "string \<Rightarrow> string" where
  "strip s = rev (dropWhile isspace_char (rev (dropWhile isspace_char s)))"

text \<open>
  \<open>str.isdigit\<close>: true when the string is not empty and every character has the Unicode
  property Digit. Below U+0100 these are the ten decimal digits and the superscripts
  U+00B2, U+00B3 and U+00B9.
\<close>

definition is_decimal_char :: "char \<Rightarrow> bool" where
  "is_decimal_char c = (48 \<le> (of_char c :: nat) \<and> (of_char c :: nat) \<le> 57)"

definition isdigit_char :: "char \<Rightarrow> bool" where
  "isdigit_char c = (is_decimal_char c \<or> of_char c \<in> {178, 179, 185 :: nat})"

definition isdigit :: "string \<Rightarrow> bool" where
  "isdigit s = (s \<noteq> [] \<and> list_all isdigit_char s)"

text \<open>
  \<open>int(data)\<close>, as \<open>flatten_json\<close> calls it: on a string for which \<open>isdigit\<close> holds.
  Such a string has no sign, blank or underscore, so \<open>int\<close> returns its decimal value
  when every character is a decimal digit and raises \<open>ValueError\<close> otherwise (a
  superscript digit is not a decimal digit).
\<close>

definition digit_val :: "char \<Rightarrow> nat" where
  "digit_val c = of_char c - 48"

definition py_int :: "string \<Rightarrow> error + int" where
  "py_int s =
     (if s \<noteq> [] \<and> list_all is_decimal_char s
      then Inr (int (foldl (\<lambda>a c. 10 * a + digit_val c) 0 s))
      else Inl ValueError)"

text \<open>\<open>str(n)\<close> for an integer: decimal digits, a minus sign when negative.\<close>

definition digit_char :: "nat \<Rightarrow> char" where
  "digit_char d = char_of (48 + d)"

function str_nat :: "nat \<Rightarrow> string" where
  "str_nat n = (if n < 10 then [digit_char n] else str_nat (n div 10) @ [digit_char (n mod 10)])"
  by pat_completeness auto
termination
  by (relation "measure (\<lambda>n. n)") auto

declare str_nat.simps [simp del]

definition str_int :: "int \<Rightarrow> string" where
  "str_int i = (if i < 0 then CHR ''-'' # str_nat (nat (- i)) else str_nat (nat i))"

text \<open>\<open>str(b)\<close> for a bool.\<close>

definition str_bool :: "bool \<Rightarrow> string" where
  "str_bool b = (if b then ''True'' else ''False'')"

text \<open>The f-string \<open>f'"{data}"'\<close>: the text between two double quotes, nothing escaped.\<close>

definition quoted :: "string \<Rightarrow> string" where
  "quoted s = CHR 0x22 # s @ [CHR 0x22]"

text \<open>\<open>sep.join(parts)\<close>.\<close>

fun join :: "string \<Rightarrow> string list \<Rightarrow> string" where
  "join sep [] = []"
| "join sep [x] = x"
| "join sep (x # y # ys) = x @ sep @ join sep (y # ys)"

text \<open>
  A \<open>dict\<close> keeps its keys in insertion order, and the wire line is written in that
  order, so a dict is an association list. \<open>d[k] = v\<close> replaces the value of a key that
  is present, where it stands, and appends a new key at the end; \<open>d.update(e)\<close> does so
  for each item of \<open>e\<close> in turn.
\<close>

fun dict_set :: "'k \<Rightarrow> 'v \<Rightarrow> ('k \<times> 'v) list \<Rightarrow> ('k \<times> 'v) list" where
  "dict_set k v [] = [(k, v)]"
| "dict_set k v ((k', v') # d) = (if k' = k then (k, v) # d else (k', v') # dict_set k v d)"

fun dict_update :: "('k \<times> 'v) list \<Rightarrow> ('k \<times> 'v) list \<Rightarrow> ('k \<times> 'v) list" where
  "dict_update d [] = d"
| "dict_update d ((k, v) # e) = dict_update (dict_set k v d) e"

text \<open>
  What \<open>json.loads\<close> returns: \<open>None\<close>, a bool, an int, a float, a str, a list or a dict.
  The floats are a type parameter \<open>'f\<close>: the functions below take \<open>float(s)\<close> on a
  string (\<open>None\<close> for its \<open>ValueError\<close>) and \<open>str(x)\<close> on a float as the parameters
  \<open>pf\<close> and \<open>sf\<close>, and \<open>json.loads\<close> itself as the parameter \<open>loads\<close>
  (\<open>None\<close> for \<open>JSONDecodeError\<close>).
\<close>

datatype 'f json =
    JNull
  | JBool bool
  | JInt int
  | JFloat 'f
  | JStr string
  | JList "'f json list"
  | JDict "(string \<times> 'f json) list"

section \<open>The line-record encoder (main.py)\<close>

definition IGNORED_FIELDS :: "string set" where
  "IGNORED_FIELDS = {
    ''aggregation_bits'',
    ''signature'',
    ''data_source_root'',
    ''data_target_root'',
    ''block'',
    ''state'',
    ''previous_duty_dependent_root'',
    ''current_duty_dependent_root'',
    ''signed_header_1_message_parent_root'',
    ''signed_header_1_message_state_root'',
    ''signed_header_1_message_body_root'',
    ''signed_header_1_signature'',
    ''signed_header_2_message_parent_root'',
    ''signed_header_2_message_state_root'',
    ''signed_header_2_message_body_root'',
    ''signed_header_2_signature'',
    ''attestation_1_data_source_root'',
    ''attestation_1_data_target_root'',
    ''attestation_1_signature'',
    ''attestation_2_data_source_root'',
    ''attestation_2_data_target_root'',
    ''attestation_2_signature'',
    ''message_from_bls_pubkey'',
    ''message_to_execution_address'',
    ''message_contribution_beacon_block_root'',
    ''old_head_block'',
    ''new_head_block'',
    ''old_head_state'',
    ''new_head_state'',
    ''message_contribution_aggregation_bits'',
    ''message_contribution_signature'',
    ''message_selection_proof'',
    ''data_attested_header_beacon_parent_root'',
    ''data_attested_header_beacon_state_root'',
    ''data_attested_header_beacon_body_root'',
    ''data_finalized_header_beacon_parent_root'',
    ''data_finalized_header_beacon_state_root'',
    ''data_finalized_header_beacon_body_root'',
    ''data_sync_aggregate_sync_committee_bits'',
    ''data_sync_aggregate_sync_committee_signature'',
    ''data_parent_block_root'',
    ''data_parent_block_hash'',
    ''data_payload_attributes_prev_randao'',
    ''data_payload_attributes_suggested_fee_recipient'',
    ''block_root'',
    ''kzg_commitment'',
    ''versioned_hash''}"

text \<open>The key of a dict entry: \<open>f"{prefix}_{k}" if prefix else k\<close>.\<close>

definition path_key :: "string \<Rightarrow> string \<Rightarrow> string" where
  "path_key prefix k = (if prefix \<noteq> [] then prefix @ ''_'' @ k else k)"

text \<open>
  \<open>flatten_json(data, prefix)\<close>, the \<open>isinstance\<close> chain in its order: dict, list, str,
  \<open>(int, float)\<close>, bool, anything else. \<open>flatten_items\<close> is the \<open>for k, v in data.items()\<close>
  loop with the dict \<open>items\<close> built so far.

  A Python bool is an int (\<open>isinstance(True, (int, float))\<close> holds), so a bool takes the
  \<open>(int, float)\<close> branch and is written with \<open>str\<close>; the \<open>isinstance(data, bool)\<close>
  branch after it is never reached. What is left for the last branch is \<open>None\<close>, whose
  \<open>str\<close> is \<open>None\<close>.
\<close>

fun flatten_json ::
    "(string \<Rightarrow> 'f option) \<Rightarrow> ('f \<Rightarrow> string) \<Rightarrow> 'f json \<Rightarrow> string \<Rightarrow> error + (string \<times> string) list"
  and flatten_items ::
    "(string \<Rightarrow> 'f option) \<Rightarrow> ('f \<Rightarrow> string) \<Rightarrow> (string \<times> 'f json) list \<Rightarrow> string \<Rightarrow>
       (string \<times> string) list \<Rightarrow> error + (string \<times> string) list"
where
  "flatten_json pf sf (JDict kvs) prefix = flatten_items pf sf kvs prefix []"
| "flatten_json pf sf (JList xs) prefix = Inr []"
| "flatten_json pf sf (JStr data) prefix =
     (if startswith data ''0x'' then Inr [(prefix, quoted data)]
      else if isdigit data then
        (case py_int data of
           Inl e \<Rightarrow> Inl e
         | Inr n \<Rightarrow> Inr [(prefix, str_int n @ ''i'')])
      else
        (case pf data of
           Some float_val \<Rightarrow> Inr [(prefix, sf float_val)]
         | None \<Rightarrow> Inr [(prefix, quoted data)]))"
| "flatten_json pf sf (JInt n) prefix = Inr [(prefix, str_int n)]"
| "flatten_json pf sf (JFloat x) prefix = Inr [(prefix, sf x)]"
| "flatten_json pf sf (JBool b) prefix = Inr [(prefix, str_bool b)]"
| "flatten_json pf sf JNull prefix = Inr [(prefix, quoted ''None'')]"
| "flatten_items pf sf [] prefix items = Inr items"
| "flatten_items pf sf ((k, v) # rest) prefix items =
     (if path_key prefix k \<in> IGNORED_FIELDS then flatten_items pf sf rest prefix items
      else
        (case flatten_json pf sf v (path_key prefix k) of
           Inl e \<Rightarrow> Inl e
         | Inr sub \<Rightarrow> flatten_items pf sf rest prefix (dict_update items sub)))"

text \<open>
  \<open>json_event_to_line_protocol\<close>. \<open>record_fields\<close> is the dict \<open>fields\<close> after
  \<open>fields["count"] = "1i"\<close>; \<open>record_tags\<close> are the four tags of the f-string in
  their order, each value put in as it is; \<open>time_ns\<close> is what \<open>time.time_ns()\<close>
  returned. The result is \<open>Inl e\<close> when an exception leaves the function,
  \<open>Inr None\<close> when it returns \<open>None\<close>, \<open>Inr (Some line)\<close> when it returns a line.
\<close>

definition record_fields :: "(string \<times> string) list \<Rightarrow> (string \<times> string) list" where
  "record_fields flat = dict_set ''count'' ''1i'' flat"

definition fields_str :: "(string \<times> string) list \<Rightarrow> string" where
  "fields_str fields = join '','' (map (\<lambda>(k, v). k @ ''='' @ v) fields)"

definition record_tags :: "string \<Rightarrow> string \<Rightarrow> string \<Rightarrow> (string \<times> string) list" where
  "record_tags event_type source network =
     [(''event_type'', event_type), (''source'', source), (''network'', network),
      (''endpoint'', ''/eth/v1/events'')]"

definition wire_line :: "(string \<times> string) list \<Rightarrow> (string \<times> string) list \<Rightarrow> int \<Rightarrow> string" where
  "wire_line tags fields timestamp =
     ''beacon_event'' @ concat (map (\<lambda>(k, v). '','' @ k @ ''='' @ v) tags)
       @ '' '' @ fields_str fields @ '' '' @ str_int timestamp"

definition json_event_to_line_protocol ::
    "(string \<Rightarrow> 'f json option) \<Rightarrow> (string \<Rightarrow> 'f option) \<Rightarrow> ('f \<Rightarrow> string) \<Rightarrow> int \<Rightarrow>
       string \<Rightarrow> string \<Rightarrow> string \<Rightarrow> string \<Rightarrow> error + string option" where
  "json_event_to_line_protocol loads pf sf time_ns event_type data_str source network =
     (case loads data_str of
        None \<Rightarrow> Inr None
      | Some data_json \<Rightarrow>
          (case flatten_json pf sf data_json [] of
             Inl e \<Rightarrow> Inl e
           | Inr flat \<Rightarrow>
               Inr (Some (wire_line (record_tags event_type source network)
                            (record_fields flat) time_ns))))"

text \<open>
  The paths the encoder is to keep, in the words of the specification: an object gives,
  for each key, the paths kept under \<open>parentPath_key\<close> unless that path is in the
  Ignore-Set; an array gives none; a leaf gives its own path.
\<close>

fun spec_kept_paths :: "'f json \<Rightarrow> string \<Rightarrow> string list"
  and spec_kept_paths_items :: "(string \<times> 'f json) list \<Rightarrow> string \<Rightarrow> string list"
where
  "spec_kept_paths (JDict kvs) prefix = spec_kept_paths_items kvs prefix"
| "spec_kept_paths (JList xs) prefix = []"
| "spec_kept_paths (JStr s) prefix = [prefix]"
| "spec_kept_paths (JInt n) prefix = [prefix]"
| "spec_kept_paths (JFloat x) prefix = [prefix]"
| "spec_kept_paths (JBool b) prefix = [prefix]"
| "spec_kept_paths JNull prefix = [prefix]"
| "spec_kept_paths_items [] prefix = []"
| "spec_kept_paths_items ((k, v) # rest) prefix =
     (if path_key prefix k \<in> IGNORED_FIELDS then spec_kept_paths_items rest prefix
      else spec_kept_paths v (path_key prefix k) @ spec_kept_paths_items rest prefix)"

text \<open>
  The escaping of a tag value that the specification asks of the serialization: a backslash
  before each space, comma and equals sign.
\<close>

definition spec_escape_tag :: "string \<Rightarrow> string" where
  "spec_escape_tag v =
     concat (map (\<lambda>c. if c = CHR '' '' \<or> c = CHR '','' \<or> c = CHR ''='' then [CHR 0x5C, c] else [c]) v)"

section \<open>The stream client (sse\_client.py)\<close>

text \<open>
  The body of \<open>for line in response.iter_lines(decode_unicode=True)\<close> below the stop
  check. \<open>event_type\<close> is the local variable, \<open>None\<close> or a str; the second component
  is the call of \<open>_run_event_function(event_type, data)\<close>, when the line makes one.
  \<open>and event_type\<close> tests the variable's truth value: \<open>None\<close> and the empty string
  are both false.
\<close>

definition handle_line :: "string option \<Rightarrow> string \<Rightarrow> string option \<times> (string \<times> string) option" where
  "handle_line event_type line =
     (if line = [] then (event_type, None)
      else if startswith line ''event:'' then (Some (strip (drop 6 line)), None)
      else
        (case event_type of
           Some kind \<Rightarrow>
             if startswith line ''data:'' \<and> kind \<noteq> []
             then (None, Some (kind, strip (drop 5 line)))
             else (event_type, None)
         | None \<Rightarrow> (event_type, None)))"

text \<open>
  The \<open>for\<close> loop. Each line comes with what \<open>self.stop_event.is_set()\<close> answers when
  the loop reaches it. The result is the events dispatched, in order, and whether the
  loop left through \<open>break\<close>.
\<close>

fun read_lines :: "string option \<Rightarrow> (bool \<times> string) list \<Rightarrow> (string \<times> string) list \<times> bool" where
  "read_lines event_type [] = ([], False)"
| "read_lines event_type ((stop, line) # rest) =
     (if stop then ([], True)
      else
        (case handle_line event_type line of
           (event_type', None) \<Rightarrow> read_lines event_type' rest
         | (event_type', Some ev) \<Rightarrow>
             (case read_lines event_type' rest of (evs, stopped) \<Rightarrow> (ev # evs, stopped))))"

text \<open>The events a sequence of lines dispatches when no stop signal arrives.\<close>

definition parse_lines :: "string list \<Rightarrow> (string \<times> string) list" where
  "parse_lines ls = fst (read_lines None (map (\<lambda>l. (False, l)) ls))"

text \<open>
  The parser of the specification, in its words: \<open>IDLE\<close>, and \<open>HAVE_KIND\<close> with the
  buffered kind. An \<open>event:\<close> line leads to \<open>HAVE_KIND\<close>; a \<open>data:\<close> line in
  \<open>HAVE_KIND\<close> emits the event and leads back to \<open>IDLE\<close>; a blank line and a
  \<open>data:\<close> line in \<open>IDLE\<close> change nothing. The specification does not say how
  the kind and the data are cut out of a line; they are cut as the code cuts them, the
  text after the colon with the blanks at both ends removed.
\<close>

datatype parser_state = IDLE | HAVE_KIND string

fun spec_step :: "parser_state \<Rightarrow> string \<Rightarrow> parser_state \<times> (string \<times> string) option" where
  "spec_step st line =
     (if line = [] then (st, None)
      else if startswith line ''event:'' then (HAVE_KIND (strip (drop 6 line)), None)
      else if startswith line ''data:'' then
        (case st of
           HAVE_KIND kind \<Rightarrow> (IDLE, Some (kind, strip (drop 5 line)))
         | IDLE \<Rightarrow> (IDLE, None))
      else (st, None))"

fun spec_run :: "parser_state \<Rightarrow> string list \<Rightarrow> (string \<times> string) list" where
  "spec_run st [] = []"
| "spec_run st (line # rest) =
     (case spec_step st line of
        (st', None) \<Rightarrow> spec_run st' rest
      | (st', Some ev) \<Rightarrow> ev # spec_run st' rest)"

text \<open>
  The state the code is in: \<open>HAVE_KIND\<close> when \<open>event_type\<close> is a non-empty string,
  \<open>IDLE\<close> otherwise.
\<close>

fun state_of :: "string option \<Rightarrow> parser_state" where
  "state_of None = IDLE"
| "state_of (Some kind) = (if kind = [] then IDLE else HAVE_KIND kind)"

text \<open>
  \<open>getSSEStream\<close>. The world is a script: for each turn of \<open>while not
  self.stop_event.is_set()\<close>, what \<open>is_set()\<close> answers there and what the request
  does (\<open>requests.get\<close> raises, or answers with a status and a body; the body is its
  lines and how the iteration over them ends). The function returns what it did, in
  order, and how it ended; \<open>Pending\<close> is the loop still running when the script is
  used up. Both \<open>except\<close> clauses are branches: the first for a
  \<open>RequestException\<close> or \<open>Timeout\<close>, the second for any other exception.
\<close>

datatype effect = Connect | Dispatch string string | Sleep_retry_delay
  | Log_error | Log_warning | Log_critical

datatype body_end = EndOfStream | ReadRaises error

datatype attempt = ConnectRaises error | Response nat "(bool \<times> string) list" body_end

datatype outcome = Returned | Raised error | Pending

definition after :: "effect list \<Rightarrow> effect list \<times> outcome \<Rightarrow> effect list \<times> outcome" where
  "after es r = (es @ fst r, snd r)"

definition handle_exception :: "error \<Rightarrow> effect list" where
  "handle_exception e =
     (if e = RequestException \<or> e = Timeout then [Log_warning, Sleep_retry_delay]
      else [Log_critical, Sleep_retry_delay])"

fun getSSEStream :: "(bool \<times> attempt) list \<Rightarrow> effect list \<times> outcome" where
  "getSSEStream [] = ([], Pending)"
| "getSSEStream ((stop, att) # rest) =
     (if stop then ([], Returned)
      else
        (case att of
           ConnectRaises e \<Rightarrow> after (Connect # handle_exception e) (getSSEStream rest)
         | Response status_code lines fin \<Rightarrow>
             if status_code \<noteq> 200
             then after [Connect, Log_error, Sleep_retry_delay] (getSSEStream rest)
             else
               (case read_lines None lines of
                  (evs, stopped) \<Rightarrow>
                    let dispatched = map (\<lambda>(kind, data). Dispatch kind data) evs in
                    if stopped then after (Connect # dispatched) (getSSEStream rest)
                    else
                      (case fin of
                         EndOfStream \<Rightarrow> after (Connect # dispatched) (getSSEStream rest)
                       | ReadRaises e \<Rightarrow>
                           after (Connect # dispatched @ handle_exception e)
                             (getSSEStream rest)))))"

section \<open>Dictionaries\<close>

lemma dict_set_keys:
  "map fst (dict_set k v d) = (if k \<in> set (map fst d) then map fst d else map fst d @ [k])"
  by (induction d) force+

lemma dict_set_key_set: "fst ` set (dict_set k v d) = insert k (fst ` set d)"
proof -
  have "fst ` set (dict_set k v d) = set (map fst (dict_set k v d))" by simp
  also have "\<dots> = insert k (fst ` set d)" by (simp only: dict_set_keys) auto
  finally show ?thesis .
qed

lemma map_of_dict_set: "map_of (dict_set k v d) = (map_of d)(k \<mapsto> v)"
  by (induction d) (auto simp: fun_eq_iff)

lemma distinct_dict_set: "distinct (map fst d) \<Longrightarrow> distinct (map fst (dict_set k v d))"
  by (simp add: dict_set_keys)

lemma dict_update_key_set: "fst ` set (dict_update d e) = fst ` set d \<union> fst ` set e"
  by (induction d e rule: dict_update.induct) (auto simp: dict_set_key_set)

lemma distinct_dict_update: "distinct (map fst d) \<Longrightarrow> distinct (map fst (dict_update d e))"
  by (induction d e rule: dict_update.induct) (auto simp: distinct_dict_set)

lemma dict_set_count_once:
  "distinct (map fst d) \<Longrightarrow> filter (\<lambda>kv. fst kv = k) (dict_set k v d) = [(k, v)]"
proof (induction d)
  case Nil
  then show ?case by simp
next
  case (Cons a d)
  obtain k' v' where a: "a = (k', v')" by (cases a)
  show ?case
  proof (cases "k' = k")
    case True
    with Cons.prems a have "k \<notin> fst ` set d" by auto
    then have "filter (\<lambda>kv. fst kv = k) d = []" by (auto simp: filter_empty_conv)
    with True a show ?thesis by simp
  next
    case False
    with Cons a show ?thesis by simp
  qed
qed

lemma flatten_keys:
  "flatten_json pf sf data prefix = Inr flat \<Longrightarrow> fst ` set flat = set (spec_kept_paths data prefix)"
  "flatten_items pf sf kvs prefix items = Inr out \<Longrightarrow>
     fst ` set out = fst ` set items \<union> set (spec_kept_paths_items kvs prefix)"
proof (induction pf sf data prefix and pf sf kvs prefix items
       arbitrary: flat and out rule: flatten_json_flatten_items.induct)
  case (1 pf sf kvs prefix)
  then show ?case by simp
next
  case (3 pf sf data prefix)
  then show ?case by (auto split: if_splits sum.splits option.splits)
next
  case (9 pf sf k v rest prefix items)
  show ?case
  proof (cases "path_key prefix k \<in> IGNORED_FIELDS")
    case True
    with 9 show ?thesis by simp
  next
    case False
    with "9.prems" obtain sub where
      sub: "flatten_json pf sf v (path_key prefix k) = Inr sub" and
      rest: "flatten_items pf sf rest prefix (dict_update items sub) = Inr out"
      by (auto split: sum.splits)
    from "9.IH"(2)[OF False sub] have "fst ` set sub = set (spec_kept_paths v (path_key prefix k))" .
    moreover from "9.IH"(3)[OF False sub rest]
    have "fst ` set out = fst ` set (dict_update items sub) \<union> set (spec_kept_paths_items rest prefix)" .
    ultimately show ?thesis using False by (auto simp: dict_update_key_set)
  qed
qed auto

lemma flatten_distinct:
  "flatten_json pf sf data prefix = Inr flat \<Longrightarrow> distinct (map fst flat)"
  "flatten_items pf sf kvs prefix items = Inr out \<Longrightarrow> distinct (map fst items) \<Longrightarrow>
     distinct (map fst out)"
proof (induction pf sf data prefix and pf sf kvs prefix items
       arbitrary: flat and out rule: flatten_json_flatten_items.induct)
  case (3 pf sf data prefix)
  then show ?case by (auto split: if_splits sum.splits option.splits)
next
  case (9 pf sf k v rest prefix items)
  show ?case
  proof (cases "path_key prefix k \<in> IGNORED_FIELDS")
    case True
    with 9 show ?thesis by simp
  next
    case False
    with "9.prems" obtain sub where
      sub: "flatten_json pf sf v (path_key prefix k) = Inr sub" and
      rest: "flatten_items pf sf rest prefix (dict_update items sub) = Inr out"
      by (auto split: sum.splits)
    from "9.prems"(2) have "distinct (map fst (dict_update items sub))"
      by (rule distinct_dict_update)
    with "9.IH"(3)[OF False sub rest] show ?thesis .
  qed
qed auto

lemma spec_kept_paths_not_ignored:
  "prefix \<notin> IGNORED_FIELDS \<Longrightarrow> set (spec_kept_paths (data :: 'f json) prefix) \<inter> IGNORED_FIELDS = {}"
  "set (spec_kept_paths_items (kvs :: (string \<times> 'f json) list) prefix) \<inter> IGNORED_FIELDS = {}"
  by (induction data prefix and kvs prefix rule: spec_kept_paths_spec_kept_paths_items.induct) auto

lemma empty_not_ignored: "[] \<notin> IGNORED_FIELDS"
  by (simp add: IGNORED_FIELDS_def)

lemma count_not_ignored: "''count'' \<notin> IGNORED_FIELDS"
  by (simp add: IGNORED_FIELDS_def)

section \<open>The fields of a record\<close>

lemma record_fields_keys:
  "flatten_json pf sf data [] = Inr flat \<Longrightarrow>
     fst ` set (record_fields flat) = insert ''count'' (set (spec_kept_paths data []))"
  by (simp add: record_fields_def dict_set_key_set flatten_keys(1))

lemma items_not_ignored: "''items'' \<notin> IGNORED_FIELDS"
  by (simp add: IGNORED_FIELDS_def)

text \<open>
  Claim C7. Whenever flattening a payload returns, the field names of the record are
  exactly \<open>count\<close> and the paths of the payload's leaves that are reached without
  passing a path of the Ignore-Set or an array (\<open>spec_kept_paths\<close>), and none of them is in
  the Ignore-Set. An entry whose path is in the Ignore-Set is skipped with everything
  under it, whatever it holds; an entry that holds an array adds nothing, at any depth;
  and \<open>{"items": [1,2,3]}\<close> flattens to no field at all, so the record has the
  field \<open>count\<close> only.
\<close>

theorem ignored_paths_and_arrays_are_the_excluded_subtrees:
  assumes "flatten_json pf sf data [] = Inr flat"
  shows "fst ` set (record_fields flat) = insert ''count'' (set (spec_kept_paths data []))
    \<and> fst ` set (record_fields flat) \<inter> IGNORED_FIELDS = {}
    \<and> (path_key prefix k \<in> IGNORED_FIELDS \<longrightarrow>
         flatten_items pf sf ((k, v) # rest) prefix items = flatten_items pf sf rest prefix items)
    \<and> flatten_items pf sf ((k, JList xs) # rest) prefix items = flatten_items pf sf rest prefix items
    \<and> flatten_json pf sf (JDict [(''items'', JList [JInt 1, JInt 2, JInt 3])]) [] = Inr []
    \<and> record_fields [] = [(''count'', ''1i'')]"
proof -
  have keys: "fst ` set (record_fields flat) = insert ''count'' (set (spec_kept_paths data []))"
    using assms by (rule record_fields_keys)
  have "set (spec_kept_paths data []) \<inter> IGNORED_FIELDS = {}"
    by (rule spec_kept_paths_not_ignored(1)) (rule empty_not_ignored)
  with keys have clean: "fst ` set (record_fields flat) \<inter> IGNORED_FIELDS = {}"
    using count_not_ignored by auto
  have skip: "path_key prefix k \<in> IGNORED_FIELDS \<longrightarrow>
         flatten_items pf sf ((k, v) # rest) prefix items = flatten_items pf sf rest prefix items"
    by simp
  have arr: "flatten_items pf sf ((k, JList xs) # rest) prefix items
      = flatten_items pf sf rest prefix items"
    by simp
  have ex: "flatten_json pf sf (JDict [(''items'', JList [JInt 1, JInt 2, JInt 3])]) [] = Inr []"
    using items_not_ignored by (simp add: path_key_def)
  have cnt: "record_fields [] = [(''count'', ''1i'')]"
    by (simp add: record_fields_def)
  from keys clean skip arr ex cnt show ?thesis by blast
qed

theorem ignored_paths_and_arrays_witness:
  "flatten_json (\<lambda>_. None :: unit option) (\<lambda>_. [])
      (JDict [(''slot'', JStr ''123''), (''block'', JStr ''0xabc''), (''items'', JList [JInt 1]),
              (''a'', JDict [(''signature'', JInt 1), (''b'', JInt 2)])]) []
     = Inr [(''slot'', ''123i''), (''a_signature'', ''1''), (''a_b'', ''2'')]
   \<and> fst ` set (record_fields [(''slot'', ''123i''), (''a_signature'', ''1''), (''a_b'', ''2'')])
     = insert ''count'' (set (spec_kept_paths
        (JDict [(''slot'', JStr ''123''), (''block'', JStr ''0xabc''), (''items'', JList [JInt 1]),
              (''a'', JDict [(''signature'', JInt 1), (''b'', JInt 2)])] :: unit json) []))
   \<and> fst ` set (record_fields [(''slot'', ''123i''), (''a_signature'', ''1''), (''a_b'', ''2'')])
       \<inter> IGNORED_FIELDS = {}"
proof -
  have h: "flatten_json (\<lambda>_. None :: unit option) (\<lambda>_. [])
      (JDict [(''slot'', JStr ''123''), (''block'', JStr ''0xabc''), (''items'', JList [JInt 1]),
              (''a'', JDict [(''signature'', JInt 1), (''b'', JInt 2)])]) []
     = Inr [(''slot'', ''123i''), (''a_signature'', ''1''), (''a_b'', ''2'')]"
    by code_simp
  from ignored_paths_and_arrays_are_the_excluded_subtrees [OF h] h show ?thesis by blast
qed


text \<open>
  Claim C9. Whenever the encoder returns a line, the record's fields hold \<open>count\<close>
  exactly once, with the value \<open>1i\<close>, and the line's field list has the entry
  \<open>count=1i\<close>. A payload key \<open>count\<close> keeps its place in the field order and
  loses its value to the synthetic one; otherwise \<open>count\<close> comes last.
\<close>

theorem count_field_is_always_one:
  assumes "json_event_to_line_protocol loads pf sf time_ns event_type data_str source network
             = Inr (Some line)"
  shows "\<exists>data_json flat.
      loads data_str = Some data_json
    \<and> flatten_json pf sf data_json [] = Inr flat
    \<and> line = wire_line (record_tags event_type source network) (record_fields flat) time_ns
    \<and> map_of (record_fields flat) ''count'' = Some ''1i''
    \<and> filter (\<lambda>kv. fst kv = ''count'') (record_fields flat) = [(''count'', ''1i'')]
    \<and> map fst (record_fields flat)
        = (if ''count'' \<in> set (map fst flat) then map fst flat else map fst flat @ [''count''])
    \<and> ''count=1i'' \<in> set (map (\<lambda>(k, v). k @ ''='' @ v) (record_fields flat))"
proof -
  from assms obtain data_json flat where
    l: "loads data_str = Some data_json" and
    f: "flatten_json pf sf data_json [] = Inr flat" and
    w: "line = wire_line (record_tags event_type source network) (record_fields flat) time_ns"
    by (auto simp: json_event_to_line_protocol_def split: option.splits sum.splits)
  have m: "map_of (record_fields flat) ''count'' = Some ''1i''"
    by (simp add: record_fields_def map_of_dict_set)
  have d: "distinct (map fst flat)" using f by (rule flatten_distinct(1))
  then have once: "filter (\<lambda>kv. fst kv = ''count'') (record_fields flat) = [(''count'', ''1i'')]"
    unfolding record_fields_def by (rule dict_set_count_once)
  have keys: "map fst (record_fields flat)
        = (if ''count'' \<in> set (map fst flat) then map fst flat else map fst flat @ [''count''])"
    unfolding record_fields_def by (rule dict_set_keys)
  from m have "(''count'', ''1i'') \<in> set (record_fields flat)" by (rule map_of_SomeD)
  then have "(\<lambda>(k, v). k @ ''='' @ v) (''count'', ''1i'')
      \<in> (\<lambda>(k, v). k @ ''='' @ v) ` set (record_fields flat)" by (rule imageI)
  then have ser: "''count=1i'' \<in> set (map (\<lambda>(k, v). k @ ''='' @ v) (record_fields flat))"
    by simp
  from l f w m once keys ser show ?thesis by blast
qed

theorem count_field_witness:
  \<open>json_event_to_line_protocol
      (map_of [(''{"count": 7, "x": 5}'', JDict [(''count'', JInt 7), (''x'', JInt 5)])])
      (\<lambda>_. None :: unit option) (\<lambda>_. []) 17 ''head'' ''{"count": 7, "x": 5}'' ''nodeA'' ''mainnet''
     = Inr (Some ''beacon_event,event_type=head,source=nodeA,network=mainnet,endpoint=/eth/v1/events count=1i,x=5 17'')
   \<and> (\<exists>flat. flatten_json (\<lambda>_. None :: unit option) (\<lambda>_. [])
                 (JDict [(''count'', JInt 7), (''x'', JInt 5)]) [] = Inr flat
          \<and> map_of (record_fields flat) ''count'' = Some ''1i''
          \<and> filter (\<lambda>kv. fst kv = ''count'') (record_fields flat) = [(''count'', ''1i'')])\<close>
proof -
  have h: \<open>json_event_to_line_protocol
      (map_of [(''{"count": 7, "x": 5}'', JDict [(''count'', JInt 7), (''x'', JInt 5)])])
      (\<lambda>_. None :: unit option) (\<lambda>_. []) 17 ''head'' ''{"count": 7, "x": 5}'' ''nodeA'' ''mainnet''
     = Inr (Some ''beacon_event,event_type=head,source=nodeA,network=mainnet,endpoint=/eth/v1/events count=1i,x=5 17'')\<close>
    by code_simp
  from count_field_is_always_one [OF h] h show ?thesis by auto
qed

text \<open>
  The payload \<open>{"source": 7}\<close> flattens to a field named \<open>source\<close>, which is also
  a tag key of the record.
\<close>

theorem tag_and_field_keys_counterexample:
  "flatten_json (\<lambda>_. None :: unit option) (\<lambda>_. []) (JDict [(''source'', JInt 7)]) []
     = Inr [(''source'', ''7'')]
   \<and> ''source'' \<in> set (map fst (record_tags ''head'' ''nodeA'' ''mainnet''))
   \<and> ''source'' \<in> set (map fst (record_fields [(''source'', ''7'')]))"
  by code_simp

text \<open>
  Claim C5, as the code has it. The tag keys are the four fixed names whatever the payload
  is, and the field keys are \<open>count\<close> and the kept paths of the payload; the two are
  disjoint exactly when no kept path of the payload is one of the four tag names. The
  payload \<open>{"source": 7}\<close> gives a field named \<open>source\<close>, as the tag is.
\<close>

theorem tag_keys_fixed_and_field_keys_from_payload:
  assumes "flatten_json pf sf data [] = Inr flat"
  shows "map fst (record_tags event_type source network)
           = [''event_type'', ''source'', ''network'', ''endpoint'']
    \<and> set (map fst (record_fields flat)) = insert ''count'' (set (spec_kept_paths data []))
    \<and> ((set (map fst (record_tags event_type source network))
          \<inter> set (map fst (record_fields flat)) = {})
        = (set [''event_type'', ''source'', ''network'', ''endpoint'']
             \<inter> set (spec_kept_paths data []) = {}))"
proof -
  have tags: "map fst (record_tags event_type source network)
           = [''event_type'', ''source'', ''network'', ''endpoint'']"
    by (simp add: record_tags_def)
  have keys: "set (map fst (record_fields flat)) = insert ''count'' (set (spec_kept_paths data []))"
    using record_fields_keys [OF assms] by simp
  have "''count'' \<notin> set [''event_type'', ''source'', ''network'', ''endpoint'']"
    by simp
  then have "(set [''event_type'', ''source'', ''network'', ''endpoint'']
          \<inter> insert ''count'' (set (spec_kept_paths data [])) = {})
        = (set [''event_type'', ''source'', ''network'', ''endpoint'']
             \<inter> set (spec_kept_paths data []) = {})"
    by blast
  with tags keys show ?thesis by simp
qed

theorem tag_keys_fixed_witness:
  "flatten_json (\<lambda>_. None :: unit option) (\<lambda>_. []) (JDict [(''slot'', JStr ''123'')]) []
     = Inr [(''slot'', ''123i'')]
   \<and> set (map fst (record_tags ''head'' ''nodeA'' ''mainnet''))
        \<inter> set (map fst (record_fields [(''slot'', ''123i'')])) = {}"
proof -
  have h: "flatten_json (\<lambda>_. None :: unit option) (\<lambda>_. []) (JDict [(''slot'', JStr ''123'')]) []
     = Inr [(''slot'', ''123i'')]"
    by code_simp
  have k: "set [''event_type'', ''source'', ''network'', ''endpoint'']
      \<inter> set (spec_kept_paths (JDict [(''slot'', JStr ''123'')] :: unit json) []) = {}"
    by code_simp
  from tag_keys_fixed_and_field_keys_from_payload [OF h, of "''head''" "''nodeA''" "''mainnet''"] k h
  show ?thesis by blast
qed

section \<open>Numbers\<close>

lemma digit_char_decimal: "d < 10 \<Longrightarrow> is_decimal_char (digit_char d)"
  by (simp add: is_decimal_char_def digit_char_def)

lemma str_nat_decimal: "list_all is_decimal_char (str_nat n)"
proof (induction n rule: str_nat.induct)
  case (1 n)
  show ?case
  proof (cases "n < 10")
    case True
    then show ?thesis by (simp add: str_nat.simps [of n] digit_char_decimal)
  next
    case False
    with 1 have "list_all is_decimal_char (str_nat (n div 10))" by simp
    moreover have "is_decimal_char (digit_char (n mod 10))" by (simp add: digit_char_decimal)
    ultimately show ?thesis using False by (simp add: str_nat.simps [of n])
  qed
qed

lemma str_int_no_suffix: "CHR ''i'' \<notin> set (str_int n)"
proof -
  have "\<not> is_decimal_char (CHR ''i'')" by (simp add: is_decimal_char_def)
  with str_nat_decimal have "CHR ''i'' \<notin> set (str_nat m)" for m
    by (auto simp: list_all_iff)
  then show ?thesis by (simp add: str_int_def)
qed

text \<open>
  The payload \<open>{"n": 5}\<close> holds a JSON integer; its field is \<open>n=5\<close>, with no
  \<open>i\<close> after the digits.
\<close>

theorem native_integer_counterexample:
  "flatten_json (\<lambda>_. None :: unit option) (\<lambda>_. []) (JDict [(''n'', JInt 5)]) []
     = Inr [(''n'', ''5'')]
   \<and> fields_str (record_fields [(''n'', ''5'')]) = ''n=5,count=1i''"
  by code_simp

text \<open>
  Claim C2, as the code has it. A JSON integer and a JSON float take the same branch and
  are written with \<open>str\<close>: the integer as its decimal digits with no \<open>i\<close> after them,
  the float as the text \<open>str\<close> gives it. So \<open>{"n": 5}\<close> is serialized \<open>n=5\<close>, not
  \<open>n=5i\<close>.
\<close>

theorem native_numbers_are_written_with_str:
  "flatten_json pf sf (JInt n) prefix = Inr [(prefix, str_int n)]
   \<and> CHR ''i'' \<notin> set (str_int n)
   \<and> flatten_json pf sf (JFloat x) prefix = Inr [(prefix, sf x)]
   \<and> (k \<notin> IGNORED_FIELDS \<and> k \<noteq> ''count'' \<longrightarrow>
        flatten_json pf sf (JDict [(k, JInt n)]) [] = Inr [(k, str_int n)]
      \<and> fields_str (record_fields [(k, str_int n)]) = k @ ''='' @ str_int n @ '',count=1i''
      \<and> flatten_json pf sf (JDict [(k, JFloat x)]) [] = Inr [(k, sf x)]
      \<and> fields_str (record_fields [(k, sf x)]) = k @ ''='' @ sf x @ '',count=1i'')"
  using str_int_no_suffix [of n]
  by (simp add: path_key_def fields_str_def record_fields_def)

theorem native_numbers_witness:
  "''n'' \<notin> IGNORED_FIELDS \<and> ''n'' \<noteq> ''count''
   \<and> flatten_json (\<lambda>_. None :: unit option) (\<lambda>_. ''2.5'') (JDict [(''n'', JInt (- 12))]) []
       = Inr [(''n'', ''-12'')]
   \<and> fields_str (record_fields [(''n'', ''-12'')]) = ''n=-12,count=1i''"
proof -
  have h: "''n'' \<notin> IGNORED_FIELDS \<and> ''n'' \<noteq> ''count''"
    by (simp add: IGNORED_FIELDS_def)
  have s: "str_int (- 12) = ''-12''" by code_simp
  from native_numbers_are_written_with_str
    [of "\<lambda>_. None" "\<lambda>_. ''2.5''" "- 12" "[]" "()" "''n''"] h s
  show ?thesis by simp
qed

text \<open>
  A JSON boolean takes that branch too, so it is written \<open>True\<close> or \<open>False\<close>.
\<close>

lemma bool_is_written_with_str:
  "flatten_json pf sf (JBool True) prefix = Inr [(prefix, ''True'')]
   \<and> flatten_json pf sf (JBool False) prefix = Inr [(prefix, ''False'')]"
  by (simp add: str_bool_def)

section \<open>The wire line\<close>

lemma wire_line_tags:
  "wire_line (record_tags event_type source network) fields timestamp
     = ''beacon_event,event_type='' @ event_type @ '',source='' @ source
       @ '',network='' @ network @ '',endpoint=/eth/v1/events '' @ fields_str fields
       @ '' '' @ str_int timestamp"
  by (simp add: wire_line_def record_tags_def)

text \<open>
  A source \<open>node A\<close> and a network \<open>main,net=1\<close> reach the wire line unchanged;
  the escaping of the specification would have put a backslash before the space, the
  comma and the equals sign.
\<close>

theorem tag_values_counterexample:
  "json_event_to_line_protocol (map_of [(''{}'', JDict [])]) (\<lambda>_. None :: unit option)
      (\<lambda>_. []) 17 ''head'' ''{}'' ''node A'' ''main,net=1''
     = Inr (Some ''beacon_event,event_type=head,source=node A,network=main,net=1,endpoint=/eth/v1/events count=1i 17'')
   \<and> spec_escape_tag ''node A'' = ''node'' @ [CHR 0x5C] @ '' A''
   \<and> spec_escape_tag ''main,net=1'' = ''main'' @ [CHR 0x5C] @ '',net'' @ [CHR 0x5C] @ ''=1''"
  by code_simp

text \<open>
  Claim C3, as the code has it. The wire line holds each tag value exactly as it was
  given, and \<open>/eth/v1/events\<close> for the endpoint: a space, a comma or an equals sign in a
  tag value is written without a backslash.
\<close>

theorem tag_values_are_written_as_given:
  assumes "loads data_str = Some data_json"
    and "flatten_json pf sf data_json [] = Inr flat"
  shows "json_event_to_line_protocol loads pf sf time_ns event_type data_str source network
     = Inr (Some (''beacon_event,event_type='' @ event_type @ '',source='' @ source
         @ '',network='' @ network @ '',endpoint=/eth/v1/events ''
         @ fields_str (record_fields flat) @ '' '' @ str_int time_ns))"
  using assms by (simp add: json_event_to_line_protocol_def wire_line_tags)

theorem tag_values_witness:
  \<open>json_event_to_line_protocol (map_of [(''{"slot": "123"}'', JDict [(''slot'', JStr ''123'')])])
      (\<lambda>_. None :: unit option) (\<lambda>_. []) 42 ''a=b'' ''{"slot": "123"}'' ''x y'' ''m,n''
     = Inr (Some ''beacon_event,event_type=a=b,source=x y,network=m,n,endpoint=/eth/v1/events slot=123i,count=1i 42'')\<close>
proof -
  have l: \<open>map_of [(''{"slot": "123"}'', JDict [(''slot'', JStr ''123'')])] ''{"slot": "123"}''
      = Some (JDict [(''slot'', JStr ''123'')] :: unit json)\<close> by simp
  have f: "flatten_json (\<lambda>_. None :: unit option) (\<lambda>_. []) (JDict [(''slot'', JStr ''123'')]) []
     = Inr [(''slot'', ''123i'')]"
    by code_simp
  have s: "fields_str (record_fields [(''slot'', ''123i'')]) = ''slot=123i,count=1i''"
    by code_simp
  have t: "str_int 42 = ''42''" by code_simp
  from tag_values_are_written_as_given
    [where loads = \<open>map_of [(''{"slot": "123"}'', JDict [(''slot'', JStr ''123'')])]\<close>
       and data_str = \<open>''{"slot": "123"}''\<close>
       and time_ns = 42 and event_type = "''a=b''" and source = "''x y''"
       and network = "''m,n''", OF l f] s t
  show ?thesis by simp
qed

section \<open>String leaves\<close>

text \<open>
  \<open>str.isdigit\<close> accepts the superscript digits and \<open>int\<close> does not: for the
  one-character string U+00B2 the \<open>isdigit\<close> branch is taken and \<open>int(data)\<close> raises.
\<close>

lemma superscript_two_isdigit: "isdigit [CHR 0xB2] \<and> \<not> startswith [CHR 0xB2] ''0x''"
  by (simp add: isdigit_def isdigit_char_def is_decimal_char_def startswith_def)

lemma superscript_two_int: "py_int [CHR 0xB2] = Inl ValueError"
  by (simp add: py_int_def is_decimal_char_def)

text \<open>
  The rules for a string leaf in their order, and the three examples of the
  specification. A string of decimal digits becomes an integer field; a string that
  \<open>isdigit\<close> accepts and that is not all decimal digits raises.
\<close>

lemma string_leaf_rules:
  "flatten_json pf sf (JStr data) prefix =
     (if startswith data ''0x'' then Inr [(prefix, quoted data)]
      else if data \<noteq> [] \<and> list_all is_decimal_char data
        then Inr [(prefix, str_int (int (foldl (\<lambda>a c. 10 * a + digit_val c) 0 data)) @ ''i'')]
      else if isdigit data then Inl ValueError
      else (case pf data of Some x \<Rightarrow> Inr [(prefix, sf x)] | None \<Rightarrow> Inr [(prefix, quoted data)]))"
  by (auto simp: isdigit_def isdigit_char_def py_int_def list_all_iff)

lemma string_leaf_examples:
  "flatten_json pf sf (JDict [(''a'', JDict [(''b'', JStr ''0x1234'')])]) []
     = Inr [(''a_b'', quoted ''0x1234'')]
   \<and> flatten_json pf sf (JDict [(''slot'', JStr ''123'')]) [] = Inr [(''slot'', ''123i'')]
   \<and> (pf ''1.5'' = Some x \<and> sf x = ''1.5'' \<longrightarrow>
        flatten_json pf sf (JDict [(''ratio'', JStr ''1.5'')]) [] = Inr [(''ratio'', ''1.5'')])"
proof -
  have i: "''a'' \<notin> IGNORED_FIELDS \<and> ''a_b'' \<notin> IGNORED_FIELDS \<and> ''slot'' \<notin> IGNORED_FIELDS
      \<and> ''ratio'' \<notin> IGNORED_FIELDS"
    by (simp add: IGNORED_FIELDS_def)
  have n: "str_int 123 = ''123''" by code_simp
  have a: "flatten_json pf sf (JDict [(''a'', JDict [(''b'', JStr ''0x1234'')])]) []
     = Inr [(''a_b'', quoted ''0x1234'')]"
    using i by (simp add: path_key_def startswith_def)
  have b: "flatten_json pf sf (JDict [(''slot'', JStr ''123'')]) [] = Inr [(''slot'', ''123i'')]"
    using i n
    by (simp add: path_key_def startswith_def isdigit_def isdigit_char_def is_decimal_char_def
        py_int_def digit_val_def)
  have c: "pf ''1.5'' = Some x \<and> sf x = ''1.5'' \<longrightarrow>
        flatten_json pf sf (JDict [(''ratio'', JStr ''1.5'')]) [] = Inr [(''ratio'', ''1.5'')]"
    using i
    by (simp add: path_key_def startswith_def isdigit_def isdigit_char_def is_decimal_char_def)
  from a b c show ?thesis by blast
qed

text \<open>
  Claim C8 has every string leaf typed by four rules, the last of them a quoted string
  for any string that is neither hexadecimal, nor decimal digits, nor a float. The string
  U+00B2 is none of the three, and the code gives it no field: \<open>isdigit\<close> holds for it,
  \<open>int\<close> raises \<open>ValueError\<close>, and the exception leaves \<open>flatten_json\<close>, as a leaf
  and inside the payload \<open>{"a": "\<dots>"}\<close>.
\<close>

theorem isdigit_string_that_int_rejects:
  "isdigit [CHR 0xB2]
   \<and> py_int [CHR 0xB2] = Inl ValueError
   \<and> flatten_json pf sf (JStr [CHR 0xB2]) prefix = Inl ValueError
   \<and> flatten_json pf sf (JDict [(''a'', JStr [CHR 0xB2])]) [] = Inl ValueError"
proof -
  have i: "''a'' \<notin> IGNORED_FIELDS" by (simp add: IGNORED_FIELDS_def)
  have l: "flatten_json pf sf (JStr [CHR 0xB2]) p = Inl ValueError" for p
    using superscript_two_isdigit superscript_two_int by simp
  from i l [of "''a''"] have "flatten_json pf sf (JDict [(''a'', JStr [CHR 0xB2])]) [] = Inl ValueError"
    by (simp add: path_key_def)
  with l [of prefix] superscript_two_isdigit superscript_two_int show ?thesis by simp
qed

theorem isdigit_string_witness:
  "flatten_json (\<lambda>_. None :: unit option) (\<lambda>_. []) (JDict [(''a'', JStr [CHR 0xB2])]) []
     = Inl ValueError"
  using isdigit_string_that_int_rejects [of "\<lambda>_. None :: unit option" "\<lambda>_. []" "[]"] by simp

text \<open>
  A payload that \<open>json.loads\<close> rejects: the encoder returns \<open>None\<close>.
\<close>

lemma invalid_payload_returns_None:
  "loads data_str = None \<Longrightarrow>
     json_event_to_line_protocol loads pf sf time_ns event_type data_str source network = Inr None"
  by (simp add: json_event_to_line_protocol_def)

text \<open>
  Claim C4 has the encoder return a record for every payload that is valid JSON. For the
  valid payload that parses to \<open>{"a": s}\<close>, with \<open>s\<close> the string U+00B2, the encoder
  returns nothing: \<open>ValueError\<close> leaves \<open>json_event_to_line_protocol\<close>.
\<close>

theorem valid_payload_raises_ValueError:
  assumes "loads data_str = Some (JDict [(''a'', JStr [CHR 0xB2])])"
  shows "json_event_to_line_protocol loads pf sf time_ns event_type data_str source network
           = Inl ValueError"
proof -
  have i: "''a'' \<notin> IGNORED_FIELDS" by (simp add: IGNORED_FIELDS_def)
  have "flatten_json pf sf (JDict [(''a'', JStr [CHR 0xB2])]) [] = Inl ValueError"
    using i superscript_two_isdigit superscript_two_int by (simp add: path_key_def)
  with assms show ?thesis by (simp add: json_event_to_line_protocol_def)
qed

theorem valid_payload_raises_witness:
  \<open>json_event_to_line_protocol
      (map_of [(''{"a": "'' @ [CHR 0xB2] @ ''"}'', JDict [(''a'', JStr [CHR 0xB2])])])
      (\<lambda>_. None :: unit option) (\<lambda>_. []) 17 ''head'' (''{"a": "'' @ [CHR 0xB2] @ ''"}'')
      ''nodeA'' ''mainnet''
     = Inl ValueError\<close>
proof -
  have l: \<open>map_of [(''{"a": "'' @ [CHR 0xB2] @ ''"}'', JDict [(''a'', JStr [CHR 0xB2])])]
        (''{"a": "'' @ [CHR 0xB2] @ ''"}'')
      = Some (JDict [(''a'', JStr [CHR 0xB2])] :: unit json)\<close> by simp
  from valid_payload_raises_ValueError
    [where loads = \<open>map_of [(''{"a": "'' @ [CHR 0xB2] @ ''"}'', JDict [(''a'', JStr [CHR 0xB2])])]\<close>
       and data_str = \<open>''{"a": "'' @ [CHR 0xB2] @ ''"}''\<close>
       and pf = "\<lambda>_. None :: unit option" and sf = "\<lambda>_. []", OF l]
  show ?thesis .
qed

text \<open>
  A payload whose top-level value is neither an object nor an array: when flattening
  returns, it returns one field, named by the empty root prefix, and the field list of
  the line starts with \<open>=\<close>.
\<close>

lemma top_level_scalar_field:
  assumes "\<forall>kvs. data \<noteq> JDict kvs" and "\<forall>xs. data \<noteq> JList xs"
    and "flatten_json pf sf data [] = Inr flat"
  shows "\<exists>v. flat = [([], v)] \<and> record_fields flat = [([], v), (''count'', ''1i'')]
           \<and> fields_str (record_fields flat) = ''='' @ v @ '',count=1i''"
  using assms
  by (cases data)
     (auto simp: record_fields_def fields_str_def split: if_splits sum.splits option.splits)

lemma top_level_scalar_examples:
  "flatten_json pf sf (JInt 5) [] = Inr [([], ''5'')]
   \<and> flatten_json pf sf JNull [] = Inr [([], quoted ''None'')]
   \<and> (pf ''abc'' = None \<longrightarrow> flatten_json pf sf (JStr ''abc'') [] = Inr [([], quoted ''abc'')])"
proof -
  have n: "str_int 5 = ''5''" by code_simp
  then show ?thesis
    by (simp add: startswith_def isdigit_def isdigit_char_def is_decimal_char_def)
qed

text \<open>
  Claim C10 has the encoder return such a record for every top-level value that is not an
  object or an array. For the top-level string U+00B2 it returns none: \<open>ValueError\<close>
  leaves \<open>json_event_to_line_protocol\<close>.
\<close>

theorem top_level_string_raises_ValueError:
  assumes "loads data_str = Some (JStr [CHR 0xB2])"
  shows "json_event_to_line_protocol loads pf sf time_ns event_type data_str source network
           = Inl ValueError"
proof -
  have "flatten_json pf sf (JStr [CHR 0xB2]) [] = Inl ValueError"
    using superscript_two_isdigit superscript_two_int by simp
  with assms show ?thesis by (simp add: json_event_to_line_protocol_def)
qed

theorem top_level_string_raises_witness:
  "json_event_to_line_protocol
      (map_of [([CHR 0x22, CHR 0xB2, CHR 0x22], JStr [CHR 0xB2])])
      (\<lambda>_. None :: unit option) (\<lambda>_. []) 17 ''head'' [CHR 0x22, CHR 0xB2, CHR 0x22]
      ''nodeA'' ''mainnet''
     = Inl ValueError"
proof -
  have l: "map_of [([CHR 0x22, CHR 0xB2, CHR 0x22], JStr [CHR 0xB2])] [CHR 0x22, CHR 0xB2, CHR 0x22]
      = Some (JStr [CHR 0xB2] :: unit json)" by simp
  from top_level_string_raises_ValueError
    [where loads = "map_of [([CHR 0x22, CHR 0xB2, CHR 0x22], JStr [CHR 0xB2])]"
       and data_str = "[CHR 0x22, CHR 0xB2, CHR 0x22]"
       and pf = "\<lambda>_. None :: unit option" and sf = "\<lambda>_. []", OF l]
  show ?thesis .
qed

section \<open>The framing parser\<close>

lemma data_line_not_event:
  "startswith line ''data:'' \<Longrightarrow> line \<noteq> [] \<and> \<not> startswith line ''event:''"
  by (cases line) (auto simp: startswith_def)

lemma handle_line_blank: "handle_line event_type [] = (event_type, None)"
  by (simp add: handle_line_def)

lemma handle_line_event:
  "startswith line ''event:'' \<Longrightarrow> handle_line event_type line = (Some (strip (drop 6 line)), None)"
  by (auto simp: handle_line_def startswith_def)

lemma handle_line_data_have_kind:
  assumes "startswith line ''data:''" and "state_of event_type = HAVE_KIND kind"
  shows "handle_line event_type line = (None, Some (kind, strip (drop 5 line)))"
proof -
  from assms(2) have "event_type = Some kind \<and> kind \<noteq> []"
    by (cases event_type) (auto split: if_splits)
  with assms(1) data_line_not_event [OF assms(1)] show ?thesis
    by (simp add: handle_line_def)
qed

lemma handle_line_data_idle:
  assumes "startswith line ''data:''" and "state_of event_type = IDLE"
  shows "handle_line event_type line = (event_type, None)"
proof -
  from assms(2) have "event_type = None \<or> event_type = Some []"
    by (cases event_type) (auto split: if_splits)
  with data_line_not_event [OF assms(1)] show ?thesis
    by (auto simp: handle_line_def)
qed

lemma handle_line_refines:
  assumes "startswith line ''event:'' \<longrightarrow> strip (drop 6 line) \<noteq> []"
  shows "spec_step (state_of event_type) line
           = (state_of (fst (handle_line event_type line)), snd (handle_line event_type line))"
proof (cases "line = []")
  case True
  then show ?thesis by (simp add: handle_line_def)
next
  case nonempty: False
  show ?thesis
  proof (cases "startswith line ''event:''")
    case True
    with assms nonempty show ?thesis by (simp add: handle_line_def)
  next
    case noevent: False
    show ?thesis
    proof (cases event_type)
      case None
      with nonempty noevent show ?thesis by (simp add: handle_line_def)
    next
      case (Some kind)
      with nonempty noevent show ?thesis by (simp add: handle_line_def)
    qed
  qed
qed

lemma read_lines_refines:
  "list_all (\<lambda>l. startswith l ''event:'' \<longrightarrow> strip (drop 6 l) \<noteq> []) ls \<Longrightarrow>
     fst (read_lines event_type (map (\<lambda>l. (False, l)) ls)) = spec_run (state_of event_type) ls"
proof (induction ls arbitrary: event_type)
  case Nil
  then show ?case by simp
next
  case (Cons line ls)
  from Cons.prems have ok: "startswith line ''event:'' \<longrightarrow> strip (drop 6 line) \<noteq> []"
    and rest: "list_all (\<lambda>l. startswith l ''event:'' \<longrightarrow> strip (drop 6 l) \<noteq> []) ls"
    by simp_all
  obtain et' ev where h: "handle_line event_type line = (et', ev)"
    by (cases "handle_line event_type line")
  with handle_line_refines [OF ok, of event_type]
  have s: "spec_step (state_of event_type) line = (state_of et', ev)" by simp
  from Cons.IH [OF rest, of et']
  have ih: "fst (read_lines et' (map (\<lambda>l. (False, l)) ls)) = spec_run (state_of et') ls" .
  show ?case
  proof (cases ev)
    case None
    with h s ih show ?thesis by (simp del: spec_step.simps)
  next
    case (Some e)
    with h s ih show ?thesis by (auto simp del: spec_step.simps split: prod.splits)
  qed
qed

text \<open>
  An \<open>event:\<close> line with nothing after the colon, then a \<open>data:\<close> line: the code
  dispatches nothing, the state machine of the specification emits an event of empty kind.
\<close>

theorem empty_event_kind_counterexample:
  "parse_lines [''event:'', ''data: {}''] = []
   \<and> spec_run IDLE [''event:'', ''data: {}''] = [([], ''{}'')]"
  by code_simp

text \<open>
  Claim C6, as the code has it. A blank line changes nothing. An \<open>event:\<close> line buffers
  its trimmed kind, which is \<open>HAVE_KIND\<close> when the kind is not empty and \<open>IDLE\<close> when
  it is. A \<open>data:\<close> line in \<open>HAVE_KIND\<close> dispatches one event with the buffered kind and
  the trimmed data and leads to \<open>IDLE\<close>; a \<open>data:\<close> line in \<open>IDLE\<close> dispatches
  nothing and changes nothing. On every sequence of lines whose \<open>event:\<close> lines all name
  a non-empty kind, the code dispatches exactly the events of the specification's state
  machine.
\<close>

theorem sse_parser_follows_the_state_machine:
  "handle_line event_type [] = (event_type, None)
   \<and> (startswith line ''event:'' \<longrightarrow>
        handle_line event_type line = (Some (strip (drop 6 line)), None)
      \<and> state_of (Some (strip (drop 6 line)))
          = (if strip (drop 6 line) = [] then IDLE else HAVE_KIND (strip (drop 6 line))))
   \<and> (startswith line ''data:'' \<and> state_of event_type = HAVE_KIND kind \<longrightarrow>
        handle_line event_type line = (None, Some (kind, strip (drop 5 line)))
      \<and> state_of None = IDLE)
   \<and> (startswith line ''data:'' \<and> state_of event_type = IDLE \<longrightarrow>
        handle_line event_type line = (event_type, None))
   \<and> (list_all (\<lambda>l. startswith l ''event:'' \<longrightarrow> strip (drop 6 l) \<noteq> []) ls \<longrightarrow>
        parse_lines ls = spec_run IDLE ls)"
proof -
  have a: "startswith line ''event:'' \<longrightarrow>
        handle_line event_type line = (Some (strip (drop 6 line)), None)
      \<and> state_of (Some (strip (drop 6 line)))
          = (if strip (drop 6 line) = [] then IDLE else HAVE_KIND (strip (drop 6 line)))"
    using handle_line_event by simp
  have b: "startswith line ''data:'' \<and> state_of event_type = HAVE_KIND kind \<longrightarrow>
        handle_line event_type line = (None, Some (kind, strip (drop 5 line)))
      \<and> state_of None = IDLE"
    using handle_line_data_have_kind by simp
  have c: "startswith line ''data:'' \<and> state_of event_type = IDLE \<longrightarrow>
        handle_line event_type line = (event_type, None)"
    using handle_line_data_idle by simp
  have d: "list_all (\<lambda>l. startswith l ''event:'' \<longrightarrow> strip (drop 6 l) \<noteq> []) ls \<longrightarrow>
        parse_lines ls = spec_run IDLE ls"
    using read_lines_refines [of ls None] by (simp add: parse_lines_def)
  from handle_line_blank a b c d show ?thesis by blast
qed

theorem sse_parser_witness:
  "list_all (\<lambda>l. \<not> startswith l ''event:'' \<or> strip (drop 6 l) \<noteq> [])
     [''event: head'', ''data: {}'', [], ''data: lost'', ''event:block'', ''id: 7'',
      ''data:x'']
   \<and> parse_lines [''event: head'', ''data: {}'', [], ''data: lost'', ''event:block'',
        ''id: 7'', ''data:x'']
     = [(''head'', ''{}''), (''block'', ''x'')]
   \<and> spec_run IDLE [''event: head'', ''data: {}'', [], ''data: lost'', ''event:block'',
        ''id: 7'', ''data:x'']
     = [(''head'', ''{}''), (''block'', ''x'')]"
proof -
  have h: "list_all (\<lambda>l. startswith l ''event:'' \<longrightarrow> strip (drop 6 l) \<noteq> [])
     [''event: head'', ''data: {}'', [], ''data: lost'', ''event:block'', ''id: 7'',
      ''data:x'']"
    by code_simp
  have p: "parse_lines [''event: head'', ''data: {}'', [], ''data: lost'',
        ''event:block'', ''id: 7'', ''data:x'']
     = [(''head'', ''{}''), (''block'', ''x'')]"
    by code_simp
  from sse_parser_follows_the_state_machine
    [of None "[]" "[]" "[''event: head'', ''data: {}'', [], ''data: lost'',
        ''event:block'', ''id: 7'', ''data:x'']"] h p
  show ?thesis by (simp add: list_all_iff)
qed

section \<open>Connection failures\<close>

lemma after_snd: "snd (after es r) = snd r"
  by (simp add: after_def)

lemma after_fst: "fst (after es r) = es @ fst r"
  by (simp add: after_def)

lemma getSSEStream_step:
  "getSSEStream ((False, att) # rest) =
     after (fst (getSSEStream [(False, att)])) (getSSEStream rest)"
  by (auto simp: after_def Let_def split: attempt.splits prod.splits body_end.splits)

lemma getSSEStream_step_snd:
  "snd (getSSEStream ((False, att) # rest)) = snd (getSSEStream rest)"
  by (subst getSSEStream_step) (simp add: after_snd)

lemma getSSEStream_never_raises: "snd (getSSEStream script) \<noteq> Raised e"
proof (induction script)
  case Nil
  then show ?case by simp
next
  case (Cons a script)
  obtain stop att where a: "a = (stop, att)" by (cases a)
  show ?case
  proof (cases stop)
    case True
    with a show ?thesis by simp
  next
    case False
    with a Cons.IH show ?thesis by (simp add: getSSEStream_step_snd del: getSSEStream.simps)
  qed
qed

lemma getSSEStream_returns_on_stop:
  "snd (getSSEStream script) = Returned \<Longrightarrow> True \<in> fst ` set script"
proof (induction script)
  case Nil
  then show ?case by simp
next
  case (Cons a script)
  obtain stop att where a: "a = (stop, att)" by (cases a)
  show ?case
  proof (cases stop)
    case True
    with a show ?thesis by simp
  next
    case False
    with a Cons.prems have "snd (getSSEStream script) = Returned"
      by (simp only: getSSEStream_step_snd)
    with Cons.IH show ?thesis by simp
  qed
qed

lemma no_Connect_in_handler: "filter (\<lambda>x. x = Connect) (handle_exception e) = []"
  by (simp add: handle_exception_def)

lemma no_Connect_in_dispatch:
  "filter (\<lambda>x. x = Connect) (map (\<lambda>(kind, data). Dispatch kind data) evs) = []"
  by (induction evs) auto

lemma one_Connect_per_attempt:
  "length (filter (\<lambda>x. x = Connect) (fst (getSSEStream [(False, att)]))) = 1"
  by (auto simp: after_def Let_def no_Connect_in_handler no_Connect_in_dispatch
      split: attempt.splits prod.splits body_end.splits)

lemma getSSEStream_keeps_connecting:
  "list_all (\<lambda>(stop, att). \<not> stop) script \<Longrightarrow>
     snd (getSSEStream script) = Pending
     \<and> length (filter (\<lambda>x. x = Connect) (fst (getSSEStream script))) = length script"
proof (induction script)
  case Nil
  then show ?case by simp
next
  case (Cons a script)
  obtain stop att where a: "a = (stop, att)" by (cases a)
  from Cons.prems a have ns: "\<not> stop" and rest: "list_all (\<lambda>(stop, att). \<not> stop) script"
    by simp_all
  from Cons.IH [OF rest] have ih1: "snd (getSSEStream script) = Pending"
    and ih2: "length (filter (\<lambda>x. x = Connect) (fst (getSSEStream script))) = length script"
    by simp_all
  from ns a have e: "getSSEStream (a # script)
      = after (fst (getSSEStream [(False, att)])) (getSSEStream script)"
    using getSSEStream_step [of att script] by simp
  have "snd (getSSEStream (a # script)) = Pending"
    by (simp only: e after_snd ih1)
  moreover have "length (filter (\<lambda>x. x = Connect) (fst (getSSEStream (a # script))))
      = length (a # script)"
    by (simp only: e after_fst filter_append length_append one_Connect_per_attempt ih2) simp
  ultimately show ?case by simp
qed

text \<open>
  A connect answered with status 503, and a read that times out after one event: in both
  runs \<open>getSSEStream\<close> logs, sleeps and goes on to the next turn of its loop, where the
  stop signal makes it return. Neither run ends in an exception.
\<close>

theorem getSSEStream_returns_after_failure_counterexample:
  "getSSEStream [(False, Response 503 [] EndOfStream), (True, ConnectRaises Timeout)]
     = ([Connect, Log_error, Sleep_retry_delay], Returned)
   \<and> getSSEStream [(False, Response 200 [(False, ''event: head''), (False, ''data: {}'')]
                      (ReadRaises Timeout)),
                    (True, ConnectRaises Timeout)]
     = ([Connect, Dispatch ''head'' ''{}'', Log_warning, Sleep_retry_delay], Returned)"
  by code_simp

text \<open>
  Claim C1, as the code has it. \<open>getSSEStream\<close> retries by itself: a status other than
  200, an exception of the connect and an exception of the body read are each followed by
  a sleep of \<open>retry_delay\<close> and the next turn of the loop, so no run ends in an
  exception, a run returns only after the stop signal was seen at the head of the loop,
  and a run that never sees it there connects once per turn and is still running.
\<close>

theorem getSSEStream_retries_and_never_raises:
  "snd (getSSEStream script) \<noteq> Raised e
   \<and> (snd (getSSEStream script) = Returned \<longrightarrow> True \<in> fst ` set script)
   \<and> (list_all (\<lambda>(stop, att). \<not> stop) script \<longrightarrow>
        snd (getSSEStream script) = Pending
      \<and> length (filter (\<lambda>x. x = Connect) (fst (getSSEStream script))) = length script)
   \<and> (status_code \<noteq> 200 \<longrightarrow>
        getSSEStream ((False, Response status_code lines fin) # rest)
          = after [Connect, Log_error, Sleep_retry_delay] (getSSEStream rest))
   \<and> getSSEStream ((False, ConnectRaises e') # rest)
        = after (Connect # handle_exception e') (getSSEStream rest)
   \<and> (read_lines None lines = (evs, False) \<longrightarrow>
        getSSEStream ((False, Response 200 lines (ReadRaises e')) # rest)
          = after (Connect # map (\<lambda>(kind, data). Dispatch kind data) evs @ handle_exception e')
              (getSSEStream rest))"
proof -
  have a: "status_code \<noteq> 200 \<longrightarrow>
        getSSEStream ((False, Response status_code lines fin) # rest)
          = after [Connect, Log_error, Sleep_retry_delay] (getSSEStream rest)"
    by simp
  have b: "getSSEStream ((False, ConnectRaises e') # rest)
        = after (Connect # handle_exception e') (getSSEStream rest)"
    by simp
  have c: "read_lines None lines = (evs, False) \<longrightarrow>
        getSSEStream ((False, Response 200 lines (ReadRaises e')) # rest)
          = after (Connect # map (\<lambda>(kind, data). Dispatch kind data) evs @ handle_exception e')
              (getSSEStream rest)"
    by simp
  from getSSEStream_never_raises [of script e] getSSEStream_returns_on_stop [of script]
    getSSEStream_keeps_connecting [of script] a b c
  show ?thesis by blast
qed

theorem getSSEStream_retries_witness:
  "list_all (\<lambda>(stop, att). \<not> stop)
     [(False, Response 503 [] EndOfStream), (False, ConnectRaises Timeout),
      (False, Response 200 [(False, ''event: head''), (False, ''data: {}'')]
         (ReadRaises OtherException))]
   \<and> snd (getSSEStream
     [(False, Response 503 [] EndOfStream), (False, ConnectRaises Timeout),
      (False, Response 200 [(False, ''event: head''), (False, ''data: {}'')]
         (ReadRaises OtherException))]) = Pending
   \<and> length (filter (\<lambda>x. x = Connect) (fst (getSSEStream
     [(False, Response 503 [] EndOfStream), (False, ConnectRaises Timeout),
      (False, Response 200 [(False, ''event: head''), (False, ''data: {}'')]
         (ReadRaises OtherException))]))) = 3"
proof -
  have h: "list_all (\<lambda>(stop, att). \<not> stop)
     [(False, Response 503 [] EndOfStream), (False, ConnectRaises Timeout),
      (False, Response 200 [(False, ''event: head''), (False, ''data: {}'')]
         (ReadRaises OtherException))]"
    by simp
  from getSSEStream_retries_and_never_raises
    [of "[(False, Response 503 [] EndOfStream), (False, ConnectRaises Timeout),
      (False, Response 200 [(False, ''event: head''), (False, ''data: {}'')]
         (ReadRaises OtherException))]" ValueError 200 "[]" EndOfStream "[]" Timeout "[]"] h
  show ?thesis by simp
qed

end
